theory Spec2Isabelle
  imports Complex_Main
begin

section \<open>miniclap: a shallow embedding of \<open>src/index.ts\<close>\<close>

text \<open>
  The module exports one function, \<open>parse(s, params)\<close>. It builds the help listing and
  the option and flag names from the schema, tokenizes a string input with the local
  function \<open>split\<close>, hands the tokens to the external library \<open>minimist\<close>, and then
  resolves every parameter of the schema against what \<open>minimist\<close> returned.

  Conventions of the embedding.
  \<^item> A JavaScript string is a \<open>string\<close>; one \<open>char\<close> stands for one code unit. The
    tokenizer only ever inspects ASCII characters.
  \<^item> A JavaScript object is the association list of its own enumerable properties, in
    the order \<open>for ... in\<close> enumerates them. The three objects \<open>parse\<close> reads by key,
    \<open>raw\<close>, \<open>args\<close> and \<open>errors.invalid\<close>, are plain objects: reading a property and
    the operator \<open>in\<close> also find what \<open>Object.prototype\<close> gives every object, and an
    assignment to the key \<open>__proto__\<close> calls the setter of \<open>Object.prototype\<close>.
  \<^item> An exception is a value: a function that can throw returns a sum, \<open>Inl\<close> the
    exception.
  \<^item> \<open>minimist\<close> is not part of the repository. It is a parameter of \<open>parse\<close>: a
    function from the token list and the two name lists to the object it returns.
  \<^item> \<open>parse\<close> assigns to a field of the schema object it is given, so the model returns
    the schema as it is after the call, next to the outcome.
\<close>

subsection \<open>The tokenizer \<open>split\<close> (lines 97 to 191)\<close>

datatype State = Skipping | Reading | Single | Double

text \<open>
  The inner \<open>switch (cc)\<close> of the \<open>Double\<close> state (lines 152 to 180): the character an
  escape stands for.
\<close>

definition escape :: "char \<Rightarrow> char" where
  "escape cc =
     (if cc = CHR ''b'' then CHR 0x08
      else if cc = CHR ''f'' then CHR 0x0C
      else if cc = CHR ''n'' then CHR 0x0A
      else if cc = CHR ''r'' then CHR 0x0D
      else if cc = CHR ''t'' then CHR 0x09
      else if cc = CHR ''v'' then CHR 0x0B
      else cc)"

text \<open>
  The \<open>while (i < s.length)\<close> loop, on the characters not yet read, followed by the last
  \<open>all.push(current)\<close>. \<open>CHR 0x27\<close> is the single quote, \<open>CHR 0x22\<close> the double quote,
  \<open>CHR 0x5C\<close> the backslash and \<open>CHR 0x09\<close> the tab. A backslash that ends the input
  reads \<open>s[i]\<close> out of range: \<open>cc\<close> is \<open>undefined\<close>, and \<open>current += cc\<close> appends the
  nine characters of that word.
\<close>

fun split_loop :: "State \<Rightarrow> string \<Rightarrow> string list \<Rightarrow> string \<Rightarrow> string list" where
  "split_loop state current all [] = all @ [current]"
| "split_loop Skipping current all (c # s) =
     (if c = CHR '' '' \<or> c = CHR 0x09 then split_loop Skipping current all s
      else if c = CHR 0x27 then split_loop Single [] (all @ [current]) s
      else if c = CHR 0x22 then split_loop Double [] (all @ [current]) s
      else split_loop Reading [c] (all @ [current]) s)"
| "split_loop Reading current all (c # s) =
     (if c = CHR '' '' \<or> c = CHR 0x09 then split_loop Skipping current all s
      else split_loop Reading (current @ [c]) all s)"
| "split_loop Single current all (c # s) =
     (if c = CHR 0x27 then split_loop Skipping current all s
      else split_loop Single (current @ [c]) all s)"
| "split_loop Double current all (c # s) =
     (if c = CHR 0x22 then split_loop Skipping current all s
      else if c = CHR 0x5C then
        (case s of
           [] \<Rightarrow> split_loop Double (current @ ''undefined'') all []
         | cc # s' \<Rightarrow> split_loop Double (current @ [escape cc]) all s')
      else split_loop Double (current @ [c]) all s)"

definition split :: "string \<Rightarrow> string list" where
  "split s = filter (\<lambda>s. length s > 0) (split_loop Skipping [] [] s)"

subsection \<open>JavaScript values\<close>

text \<open>
  A number is the real it denotes, or one of the three special values; \<open>parse\<close> does no
  arithmetic, it only tests numbers for truthiness.
\<close>

datatype jsnum = NaN | PosInfinity | NegInfinity | Finite real

datatype jsval =
    JUndefined
  | JNull
  | JBool bool
  | JNum jsnum
  | JStr string
  | JArr "jsval list"
  | JObj "(string \<times> jsval) list"
  | JFunction string

text \<open>\<open>JFunction\<close> is a built-in function, by its name. Next, \<open>!!v\<close>.\<close>

fun truthy :: "jsval \<Rightarrow> bool" where
  "truthy JUndefined = False"
| "truthy JNull = False"
| "truthy (JBool b) = b"
| "truthy (JNum n) = (n \<noteq> NaN \<and> n \<noteq> Finite 0)"
| "truthy (JStr s) = (s \<noteq> [])"
| "truthy (JArr xs) = True"
| "truthy (JObj kvs) = True"
| "truthy (JFunction name) = True"

text \<open>
  The properties of \<open>Object.prototype\<close> (ECMAScript 2015 with its Annex B), which every
  plain object inherits: eleven functions, and the accessor \<open>__proto__\<close>, whose getter
  returns the prototype of the object, \<open>Object.prototype\<close> itself here, an object with no
  enumerable property. None of them is enumerable.
\<close>

definition object_prototype :: "(string \<times> jsval) list" where
  "object_prototype =
     [(''constructor'', JFunction ''Object''),
      (''__defineGetter__'', JFunction ''__defineGetter__''),
      (''__defineSetter__'', JFunction ''__defineSetter__''),
      (''hasOwnProperty'', JFunction ''hasOwnProperty''),
      (''__lookupGetter__'', JFunction ''__lookupGetter__''),
      (''__lookupSetter__'', JFunction ''__lookupSetter__''),
      (''isPrototypeOf'', JFunction ''isPrototypeOf''),
      (''propertyIsEnumerable'', JFunction ''propertyIsEnumerable''),
      (''toString'', JFunction ''toString''),
      (''valueOf'', JFunction ''valueOf''),
      (''__proto__'', JObj []),
      (''toLocaleString'', JFunction ''toLocaleString'')]"

text \<open>
  \<open>obj[key]\<close> on a plain object with the own properties \<open>obj\<close>: the own property, or
  else the inherited one, or else \<open>undefined\<close>.
\<close>

definition get_property :: "(string \<times> jsval) list \<Rightarrow> string \<Rightarrow> jsval" where
  "get_property obj key =
     (case map_of obj key of
        Some v \<Rightarrow> v
      | None \<Rightarrow> (case map_of object_prototype key of Some v \<Rightarrow> v | None \<Rightarrow> JUndefined))"

text \<open>
  \<open>obj[key] = v\<close> on a plain object: an own property is replaced where it is, a new one
  comes last. The key \<open>__proto__\<close>, when it is not an own property, reaches the setter of
  \<open>Object.prototype\<close>, which stores no property. With a primitive \<open>v\<close> the setter does
  nothing; with an object or \<open>null\<close> it replaces the prototype of \<open>obj\<close>, and this the
  embedding does not follow: the prototype of \<open>args\<close> is \<open>Object.prototype\<close> throughout.
\<close>

fun assign :: "string \<Rightarrow> 'v \<Rightarrow> (string \<times> 'v) list \<Rightarrow> (string \<times> 'v) list" where
  "assign key v [] = [(key, v)]"
| "assign key v ((k, x) # rest) =
     (if k = key then (k, v) # rest else (k, x) # assign key v rest)"

definition set_property :: "string \<Rightarrow> 'v \<Rightarrow> (string \<times> 'v) list \<Rightarrow> (string \<times> 'v) list" where
  "set_property key v obj =
     (if key = ''__proto__'' \<and> map_of obj key = None then obj else assign key v obj)"

subsection \<open>The schema\<close>

datatype ParseError = ParseError string

text \<open>What a coercion function throws: a \<open>ParseError\<close>, or anything else.\<close>

datatype thrown = IsParseError ParseError | Other jsval

text \<open>\<open>long?: string | string[]\<close>\<close>

datatype long_alias = LongStr string | LongArr "string list"

text \<open>\<open>type?: "bool" | Parser<unknown>\<close>; a \<open>Parser\<close> returns a value or throws.\<close>

datatype param_type = Bool | Parser "jsval \<Rightarrow> thrown + jsval"

text \<open>
  Every field of a descriptor is optional: \<open>None\<close> is \<open>undefined\<close>. The type \<open>Param\<close> of
  the source excludes some combinations (a \<open>"bool"\<close> with a default, say); they are not
  excluded at run time, and not here.
\<close>

record Param =
  long :: "long_alias option"
  short :: "string option"
  type :: "param_type option"
  optional :: "bool option"
  default' :: "string option"

type_synonym Params = "(string \<times> Param) list"

text \<open>The conditions \<open>parse\<close> tests: a field is truthy when it is there and not empty.\<close>

definition has_short :: "Param \<Rightarrow> bool" where
  "has_short param = (case short param of None \<Rightarrow> False | Some s \<Rightarrow> s \<noteq> [])"

definition has_long :: "Param \<Rightarrow> bool" where
  "has_long param =
     (case long param of
        None \<Rightarrow> False
      | Some (LongStr s) \<Rightarrow> s \<noteq> []
      | Some (LongArr ps) \<Rightarrow> True)"

definition has_default :: "Param \<Rightarrow> bool" where
  "has_default param = (case default' param of None \<Rightarrow> False | Some d \<Rightarrow> d \<noteq> [])"

definition is_optional :: "Param \<Rightarrow> bool" where
  "is_optional param = (optional param = Some True)"

definition is_bool :: "Param \<Rightarrow> bool" where
  "is_bool param = (case type param of Some Bool \<Rightarrow> True | _ \<Rightarrow> False)"

text \<open>
  \<open>for (const p of param.long)\<close> under \<open>if (param.long)\<close>: the elements of an array, the
  characters of a string that is not empty.
\<close>

definition long_names :: "Param \<Rightarrow> string list" where
  "long_names param =
     (case long param of
        None \<Rightarrow> []
      | Some (LongStr s) \<Rightarrow> map (\<lambda>c. [c]) s
      | Some (LongArr ps) \<Rightarrow> ps)"

subsection \<open>The first loop (lines 66 to 93): names for \<open>minimist\<close>, and the help listing\<close>

text \<open>
  \<open>if (param.long && typeof param.long === "string") param.long = [param.long]\<close>
  (lines 75 to 77): an assignment to the caller's descriptor.
\<close>

definition normalize_long :: "Param \<Rightarrow> Param" where
  "normalize_long param =
     (case long param of
        Some (LongStr s) \<Rightarrow> if s \<noteq> [] then param\<lparr>long := Some (LongArr [s])\<rparr> else param
      | _ \<Rightarrow> param)"

text \<open>\<open>help.join(" ")\<close>\<close>

fun join :: "string list \<Rightarrow> string" where
  "join [] = []"
| "join [x] = x"
| "join (x # y # ys) = x @ '' '' @ join (y # ys)"

text \<open>What the loop pushes on \<open>type\<close>, and on \<open>help\<close>, for a descriptor already normalized.\<close>

definition names_of :: "Param \<Rightarrow> string list" where
  "names_of param = (if has_short param then [the (short param)] else []) @ long_names param"

definition help_of :: "string \<Rightarrow> Param \<Rightarrow> string list" where
  "help_of key param =
     (if has_short param then [''-'' @ the (short param)] else [])
     @ map (\<lambda>p. ''--'' @ p) (long_names param)
     @ (if is_bool param then []
        else if has_default param then [''<'' @ key @ ''='' @ the (default' param) @ ''>'']
        else [''<'' @ key @ ''>''])"

text \<open>
  The four local lists of the loop; \<open>options'\<close> is the local \<open>options\<close>, the names
  that take a value, as \<open>options\<close> is also a field of the help listing.
\<close>

record Names =
  options' :: "string list"
  flags :: "string list"
  helpParams :: "string list"
  helpOptions :: "string list"

definition register :: "string \<Rightarrow> Param \<Rightarrow> Names \<Rightarrow> Names" where
  "register key param n =
     (let n1 = (if is_bool param then n\<lparr>flags := flags n @ names_of param\<rparr>
                else n\<lparr>options' := options' n @ names_of param\<rparr>)
      in if has_short param \<or> has_long param
         then n1\<lparr>helpOptions := helpOptions n1 @ [join (help_of key param)]\<rparr>
         else n1\<lparr>helpParams := helpParams n1 @ [join (help_of key param)]\<rparr>)"

text \<open>The loop returns the schema as the assignments leave it, and the four lists.\<close>

fun register_all :: "Params \<Rightarrow> Names \<Rightarrow> Params \<times> Names" where
  "register_all [] n = ([], n)"
| "register_all ((key, param) # rest) n =
     (let param' = normalize_long param;
          (rest', n') = register_all rest (register key param' n)
      in ((key, param') # rest', n'))"

record ParamsHelp =
  params :: "string list"
  options :: "string list"

subsection \<open>What \<open>minimist\<close> returns\<close>

text \<open>
  The object \<open>raw\<close>: the array \<open>raw._\<close> and the other own properties. \<open>parse\<close> deletes
  properties of \<open>raw\<close>, and \<open>_\<close> can be one of them, so \<open>underscore\<close> is \<open>None\<close> once
  \<open>raw._\<close> is gone. A numeric token is a number in \<open>raw._\<close>, so the elements are values.
\<close>

record Raw =
  underscore :: "jsval list option"
  named :: "(string \<times> jsval) list"

type_synonym minimist = "string list \<Rightarrow> string list \<Rightarrow> string list \<Rightarrow> jsval list \<times> (string \<times> jsval) list"

text \<open>
  \<open>p in raw\<close>, \<open>raw[p]\<close> and \<open>delete raw[p]\<close>. The first two follow the prototype
  chain; \<open>delete\<close> removes an own property only.
\<close>

definition in_raw :: "string \<Rightarrow> Raw \<Rightarrow> bool" where
  "in_raw p r =
     (if p = ''_'' then underscore r \<noteq> None
      else map_of (named r) p \<noteq> None \<or> map_of object_prototype p \<noteq> None)"

definition get_raw :: "Raw \<Rightarrow> string \<Rightarrow> jsval" where
  "get_raw r p =
     (if p = ''_'' then (case underscore r of None \<Rightarrow> JUndefined | Some ts \<Rightarrow> JArr ts)
      else get_property (named r) p)"

definition delete_raw :: "string \<Rightarrow> Raw \<Rightarrow> Raw" where
  "delete_raw p r =
     (if p = ''_'' then r\<lparr>underscore := None\<rparr>
      else r\<lparr>named := filter (\<lambda>kv. fst kv \<noteq> p) (named r)\<rparr>)"

subsection \<open>The second loop (lines 208 to 279): resolving the parameters\<close>

record ArgErrors =
  invalid :: "(string \<times> ParseError) list"
  missing :: "string list"
  unexpected :: "jsval list"

text \<open>The three objects the loop updates.\<close>

record Work =
  raw :: Raw
  args :: "(string \<times> jsval) list"
  errors :: ArgErrors

text \<open>What \<open>parse\<close> itself can throw: a \<open>TypeError\<close>, or what a coercion threw.\<close>

datatype exception = TypeError | Thrown jsval

text \<open>
  The local function \<open>parser\<close> (lines 211 to 224): the pair \<open>[val, err]\<close>, or the
  exception it throws again.
\<close>

definition parser :: "Param \<Rightarrow> jsval \<Rightarrow> exception + (jsval \<times> ParseError option)" where
  "parser param arg =
     (case type param of
        Some Bool \<Rightarrow> Inr (JBool (truthy arg), None)
      | None \<Rightarrow> Inr (arg, None)
      | Some (Parser f) \<Rightarrow>
          (case f arg of
             Inr v \<Rightarrow> Inr (v, None)
           | Inl (IsParseError e) \<Rightarrow> Inr (JNull, Some e)
           | Inl (Other x) \<Rightarrow> Inl (Thrown x)))"

text \<open>\<open>args[key]\<close>\<close>

definition get_arg :: "(string \<times> jsval) list \<Rightarrow> string \<Rightarrow> jsval" where
  "get_arg a key = get_property a key"

text \<open>\<open>if (err) errors.invalid[key] = err; else args[key] = val;\<close>\<close>

definition settle :: "string \<Rightarrow> jsval \<times> ParseError option \<Rightarrow> Work \<Rightarrow> Work" where
  "settle key r w =
     (case snd r of
        Some err \<Rightarrow> w\<lparr>errors := (errors w)\<lparr>invalid := set_property key err (invalid (errors w))\<rparr>\<rparr>
      | None \<Rightarrow> w\<lparr>args := set_property key (fst r) (args w)\<rparr>)"

text \<open>The same with \<open>args[key] ||= val\<close> for a \<open>"bool"\<close>, as the loop over \<open>param.long\<close> has it.\<close>

definition settle_long :: "string \<Rightarrow> Param \<Rightarrow> jsval \<times> ParseError option \<Rightarrow> Work \<Rightarrow> Work" where
  "settle_long key param r w =
     (case snd r of
        Some err \<Rightarrow> w\<lparr>errors := (errors w)\<lparr>invalid := set_property key err (invalid (errors w))\<rparr>\<rparr>
      | None \<Rightarrow>
          if is_bool param
          then (if truthy (get_arg (args w) key) then w
                else w\<lparr>args := set_property key (fst r) (args w)\<rparr>)
          else w\<lparr>args := set_property key (fst r) (args w)\<rparr>)"

text \<open>The default (lines 226 to 233).\<close>

definition seed_default :: "string \<Rightarrow> Param \<Rightarrow> Work \<Rightarrow> exception + Work" where
  "seed_default key param w =
     (if has_default param
      then (case parser param (JStr (the (default' param))) of
              Inl x \<Rightarrow> Inl x
            | Inr r \<Rightarrow> Inr (settle key r w))
      else Inr w)"

text \<open>The short alias (lines 235 to 244).\<close>

definition bind_short :: "string \<Rightarrow> Param \<Rightarrow> Work \<Rightarrow> exception + Work" where
  "bind_short key param w =
     (if has_short param \<and> in_raw (the (short param)) (raw w)
      then (case parser param (get_raw (raw w) (the (short param))) of
              Inl x \<Rightarrow> Inl x
            | Inr r \<Rightarrow> Inr (settle key r (w\<lparr>raw := delete_raw (the (short param)) (raw w)\<rparr>)))
      else Inr w)"

text \<open>The long aliases (lines 246 to 261), on the names still to visit.\<close>

fun bind_long :: "string \<Rightarrow> Param \<Rightarrow> string list \<Rightarrow> Work \<Rightarrow> exception + Work" where
  "bind_long key param [] w = Inr w"
| "bind_long key param (p # ps) w =
     (if in_raw p (raw w)
      then (case parser param (get_raw (raw w) p) of
              Inl x \<Rightarrow> Inl x
            | Inr r \<Rightarrow>
                bind_long key param ps (settle_long key param r (w\<lparr>raw := delete_raw p (raw w)\<rparr>)))
      else bind_long key param ps w)"

text \<open>
  The next positional token (lines 263 to 270). \<open>raw._.length\<close> is read only when the
  parameter has no alias; it throws a \<open>TypeError\<close> when \<open>raw._\<close> has been deleted.
\<close>

definition bind_positional :: "string \<Rightarrow> Param \<Rightarrow> Work \<Rightarrow> exception + Work" where
  "bind_positional key param w =
     (if \<not> has_short param \<and> \<not> has_long param
      then (case underscore (raw w) of
              None \<Rightarrow> Inl TypeError
            | Some [] \<Rightarrow> Inr w
            | Some (t # ts) \<Rightarrow>
                (case parser param t of
                   Inl x \<Rightarrow> Inl x
                 | Inr r \<Rightarrow> Inr (settle key r (w\<lparr>raw := (raw w)\<lparr>underscore := Some ts\<rparr>\<rparr>))))
      else Inr w)"

text \<open>A parameter with no value (lines 272 to 278).\<close>

definition finish :: "string \<Rightarrow> Param \<Rightarrow> Work \<Rightarrow> Work" where
  "finish key param w =
     (if get_arg (args w) key = JUndefined
      then (if is_bool param then w\<lparr>args := set_property key (JBool False) (args w)\<rparr>
            else if \<not> is_optional param
            then w\<lparr>errors := (errors w)\<lparr>missing := missing (errors w) @ [key]\<rparr>\<rparr>
            else w)
      else w)"

text \<open>The body of the loop, for one key.\<close>

definition resolve :: "string \<Rightarrow> Param \<Rightarrow> Work \<Rightarrow> exception + Work" where
  "resolve key param w =
     (case seed_default key param w of
        Inl x \<Rightarrow> Inl x
      | Inr w1 \<Rightarrow>
     (case bind_short key param w1 of
        Inl x \<Rightarrow> Inl x
      | Inr w2 \<Rightarrow>
     (case bind_long key param (long_names param) w2 of
        Inl x \<Rightarrow> Inl x
      | Inr w3 \<Rightarrow>
     (case bind_positional key param w3 of
        Inl x \<Rightarrow> Inl x
      | Inr w4 \<Rightarrow> Inr (finish key param w4)))))"

fun resolve_all :: "Params \<Rightarrow> Work \<Rightarrow> exception + Work" where
  "resolve_all [] w = Inr w"
| "resolve_all ((key, param) # rest) w =
     (case resolve key param w of
        Inl x \<Rightarrow> Inl x
      | Inr w' \<Rightarrow> resolve_all rest w')"

subsection \<open>What is left over (lines 281 to 288), and the outcome (lines 290 to 298)\<close>

text \<open>
  The two loops after the resolution: the elements of \<open>raw._\<close> but the empty string, then
  the keys of \<open>raw\<close> but \<open>_\<close>. Iterating \<open>raw._\<close> throws a \<open>TypeError\<close> when it is gone.
\<close>

definition leftover :: "Work \<Rightarrow> exception + Work" where
  "leftover w =
     (case underscore (raw w) of
        None \<Rightarrow> Inl TypeError
      | Some ts \<Rightarrow>
          Inr (w\<lparr>errors := (errors w)\<lparr>unexpected :=
                 unexpected (errors w)
                 @ filter (\<lambda>arg. arg \<noteq> JStr []) ts
                 @ map JStr (filter (\<lambda>opt. opt \<noteq> ''_'') (map fst (named (raw w))))\<rparr>\<rparr>))"

text \<open>The tuple \<open>parse\<close> returns: \<open>None\<close> is \<open>null\<close>.\<close>

type_synonym ParseReturn = "(string \<times> jsval) list option \<times> ArgErrors option \<times> ParamsHelp"

definition outcome :: "ParamsHelp \<Rightarrow> Work \<Rightarrow> ParseReturn" where
  "outcome help w =
     (if invalid (errors w) \<noteq> [] \<or> missing (errors w) \<noteq> [] \<or> unexpected (errors w) \<noteq> []
      then (None, Some (errors w), help)
      else (Some (args w), None, help))"

subsection \<open>\<open>parse\<close>\<close>

datatype input = Str string | Argv "string list"

definition tokens :: "input \<Rightarrow> string list" where
  "tokens s = (case s of Str str \<Rightarrow> split str | Argv ts \<Rightarrow> ts)"

definition start :: "jsval list \<times> (string \<times> jsval) list \<Rightarrow> Work" where
  "start m =
     \<lparr>raw = \<lparr>underscore = Some (fst m), named = snd m\<rparr>,
      args = [],
      errors = \<lparr>invalid = [], missing = [], unexpected = []\<rparr>\<rparr>"

text \<open>The first loop, from the empty lists.\<close>

definition first_loop :: "Params \<Rightarrow> Params \<times> Names" where
  "first_loop params0 =
     register_all params0 \<lparr>options' = [], flags = [], helpParams = [], helpOptions = []\<rparr>"

text \<open>
  The call of \<open>minimist\<close> (lines 196 to 199) and the second loop: the three objects
  once every parameter is resolved, or the exception that ended the loop.
\<close>

definition second_loop :: "minimist \<Rightarrow> input \<Rightarrow> Params \<Rightarrow> exception + Work" where
  "second_loop mini s params0 =
     (let (params1, n) = first_loop params0
      in resolve_all params1 (start (mini (tokens s) (options' n) (flags n))))"

text \<open>The schema after the call, and the tuple returned or the exception thrown.\<close>

definition parse :: "minimist \<Rightarrow> input \<Rightarrow> Params \<Rightarrow> Params \<times> (exception + ParseReturn)" where
  "parse mini s params0 =
     (let (params1, n) = first_loop params0;
          help = \<lparr>params = helpParams n, options = helpOptions n\<rparr>
      in (params1,
          case second_loop mini s params0 of
            Inl x \<Rightarrow> Inl x
          | Inr w1 \<Rightarrow>
              (case leftover w1 of
                 Inl x \<Rightarrow> Inl x
               | Inr w2 \<Rightarrow> Inr (outcome help w2))))"

subsection \<open>A schema without its empty defaults\<close>


subsection \<open>The layering of the sources, in the words of the claims\<close>







section \<open>The tokenizer\<close>

lemma skip_whitespace:
  "\<forall>c\<in>set ws. c = CHR '' '' \<or> c = CHR 0x09 \<Longrightarrow>
   split_loop Skipping current all (ws @ rest) = split_loop Skipping current all rest"
  by (induction ws) auto

lemma single_segment:
  "CHR 0x27 \<notin> set u \<Longrightarrow>
   split_loop Single current all (u @ CHR 0x27 # rest) = split_loop Skipping (current @ u) all rest"
  by (induction u arbitrary: current) auto

lemma double_segment:
  "CHR 0x22 \<notin> set v \<Longrightarrow> CHR 0x5C \<notin> set v \<Longrightarrow>
   split_loop Double current all (v @ CHR 0x22 # rest) = split_loop Skipping (current @ v) all rest"
  by (induction v arbitrary: current) auto

text \<open>
  C7. For every input string, no token that \<open>split\<close> returns is the empty string; when
  every character of the input is whitespace (a space or a tab, the two characters the
  tokenizer skips), \<open>split\<close> returns the empty sequence.
\<close>

theorem split_no_empty_token:
  "[] \<notin> set (split s) \<and>
   ((\<forall>c\<in>set s. c = CHR '' '' \<or> c = CHR 0x09) \<longrightarrow> split s = [])"
proof
  show "[] \<notin> set (split s)"
    by (simp add: split_def)
  show "(\<forall>c\<in>set s. c = CHR '' '' \<or> c = CHR 0x09) \<longrightarrow> split s = []"
  proof
    assume ws: "\<forall>c\<in>set s. c = CHR '' '' \<or> c = CHR 0x09"
    have "split_loop Skipping [] [] (s @ []) = split_loop Skipping [] [] []"
      using ws by (rule skip_whitespace)
    then show "split s = []"
      by (simp add: split_def)
  qed
qed

text \<open>The theorem at an input of two spaces around a tab, and at \<open>" a  b "\<close>.\<close>

theorem split_no_empty_token_witness:
  "[] \<notin> set (split [CHR '' '', CHR 0x09, CHR '' '']) \<and> split [CHR '' '', CHR 0x09, CHR '' ''] = []
   \<and> [] \<notin> set (split '' a  b '') \<and> split '' a  b '' = [''a'', ''b'']"
  using split_no_empty_token [of "[CHR '' '', CHR 0x09, CHR '' '']"]
    split_no_empty_token [of "'' a  b ''"]
  by (simp add: split_def)

subsection \<open>Where a token ends\<close>

text \<open>The finished tokens are carried along unchanged.\<close>

lemma split_loop_all:
  "split_loop state current (pre @ all) s = pre @ split_loop state current all s"
proof (induction state current all s rule: split_loop.induct)
  case (1 state current all)
  then show ?case by simp
next
  case (2 current all c s)
  then show ?case by simp
next
  case (3 current all c s)
  then show ?case by simp
next
  case (4 current all c s)
  then show ?case by simp
next
  case (5 current all c s)
  then show ?case by (cases s) simp_all
qed

text \<open>
  From the state \<open>Skipping\<close> the loop goes on as from the start of an input: how the rest
  is cut into tokens depends on neither the current token nor the finished ones.
\<close>

lemma split_loop_Skipping:
  "split_loop Skipping current all s = all @ current # tl (split_loop Skipping [] [] s)"
proof (induction s)
  case Nil
  then show ?case by simp
next
  case (Cons c s)
  have 1: "split_loop st cur (all @ [current]) s = all @ current # split_loop st cur [] s"
    for st cur
    using split_loop_all [of st cur "all @ [current]" "[]" s] by simp
  have 2: "split_loop st cur [[]] s = [] # split_loop st cur [] s" for st cur
    using split_loop_all [of st cur "[[]]" "[]" s] by simp
  show ?case
    using Cons by (simp add: 1 2)
qed

lemma split_Skipping:
  "filter (\<lambda>s. length s > 0) (split_loop Skipping current all s) =
   filter (\<lambda>s. length s > 0) (all @ [current]) @ split s"
proof -
  have "split_loop Skipping [] [] s = [] # tl (split_loop Skipping [] [] s)"
    using split_loop_Skipping [of "[]" "[]" s] by simp
  then have "split s = filter (\<lambda>s. length s > 0) (tl (split_loop Skipping [] [] s))"
    unfolding split_def by (metis (mono_tags, lifting) filter.simps(2) length_greater_0_conv)
  then show ?thesis
    by (simp add: split_loop_Skipping [of current all s])
qed

text \<open>
  C2 as it is stated fails. A closing quote sets the state back to \<open>Skipping\<close>, and the
  next character that is not whitespace pushes \<open>current\<close> and starts a token. So
  \<open>'a'"b"\<close> gives the two tokens \<open>a\<close> and \<open>b\<close>, not the one token \<open>ab\<close>.
\<close>

theorem split_adjacent_quotes_counterexample:
  "split [CHR 0x27, CHR ''a'', CHR 0x27, CHR 0x22, CHR ''b'', CHR 0x22] = [''a'', ''b''] \<and>
   split [CHR 0x27, CHR ''a'', CHR 0x27, CHR 0x22, CHR ''b'', CHR 0x22] \<noteq> [''ab'']"
  by (simp add: split_def)

text \<open>
  C2, amended. A closing quote ends the token, whatever follows it. When the loop is
  inside single quotes and reads a single quote, or inside double quotes and reads a
  double quote (one that no backslash before it has taken), with the token \<open>current\<close> at
  that point and the finished tokens \<open>all\<close>, the tokens returned are the finished ones,
  then \<open>current\<close>, each dropped when empty, and then the tokens of the rest of the
  input, cut as if the rest were an input of its own. So a quoted segment at the start of
  an input is a token by itself, and two adjacent quoted segments are two tokens, with
  whitespace between them or without.
\<close>

theorem split_adjacent_quotes:
  "filter (\<lambda>s. length s > 0) (split_loop Single current all (CHR 0x27 # rest)) =
     filter (\<lambda>s. length s > 0) (all @ [current]) @ split rest \<and>
   filter (\<lambda>s. length s > 0) (split_loop Double current all (CHR 0x22 # rest)) =
     filter (\<lambda>s. length s > 0) (all @ [current]) @ split rest \<and>
   (CHR 0x27 \<notin> set u \<longrightarrow>
      split (CHR 0x27 # u @ CHR 0x27 # rest) = filter (\<lambda>s. length s > 0) [u] @ split rest) \<and>
   (CHR 0x22 \<notin> set v \<and> CHR 0x5C \<notin> set v \<longrightarrow>
      split (CHR 0x22 # v @ CHR 0x22 # rest) = filter (\<lambda>s. length s > 0) [v] @ split rest) \<and>
   ((\<forall>c\<in>set ws. c = CHR '' '' \<or> c = CHR 0x09) \<longrightarrow> split (ws @ rest) = split rest)"
proof (intro conjI impI)
  show "filter (\<lambda>s. length s > 0) (split_loop Single current all (CHR 0x27 # rest)) =
     filter (\<lambda>s. length s > 0) (all @ [current]) @ split rest"
    using split_Skipping [of current all rest] by simp
  show "filter (\<lambda>s. length s > 0) (split_loop Double current all (CHR 0x22 # rest)) =
     filter (\<lambda>s. length s > 0) (all @ [current]) @ split rest"
    using split_Skipping [of current all rest] by simp
next
  assume u: "CHR 0x27 \<notin> set u"
  have "split_loop Skipping [] [] (CHR 0x27 # u @ CHR 0x27 # rest) =
        split_loop Single [] [[]] (u @ CHR 0x27 # rest)"
    by simp
  also have "\<dots> = split_loop Skipping u [[]] rest"
    using single_segment [OF u, of "[]"] by simp
  finally show "split (CHR 0x27 # u @ CHR 0x27 # rest) =
      filter (\<lambda>s. length s > 0) [u] @ split rest"
    using split_Skipping [of u "[[]]" rest] by (simp add: split_def)
next
  assume "CHR 0x22 \<notin> set v \<and> CHR 0x5C \<notin> set v"
  then have v: "CHR 0x22 \<notin> set v" "CHR 0x5C \<notin> set v" by simp_all
  have "split_loop Skipping [] [] (CHR 0x22 # v @ CHR 0x22 # rest) =
        split_loop Double [] [[]] (v @ CHR 0x22 # rest)"
    by simp
  also have "\<dots> = split_loop Skipping v [[]] rest"
    using double_segment [OF v, of "[]"] by simp
  finally show "split (CHR 0x22 # v @ CHR 0x22 # rest) =
      filter (\<lambda>s. length s > 0) [v] @ split rest"
    using split_Skipping [of v "[[]]" rest] by (simp add: split_def)
next
  assume "\<forall>c\<in>set ws. c = CHR '' '' \<or> c = CHR 0x09"
  then show "split (ws @ rest) = split rest"
    by (simp add: split_def skip_whitespace)
qed

text \<open>
  The theorem at \<open>'a'"b"\<close>, at \<open>"a"'b'\<close> and at \<open>'a' "b"\<close>, and, for a segment with
  an escape, in the state the loop is in when it reads the closing quote of
  \<open>"x\ny"'b'\<close>.
\<close>

theorem split_adjacent_quotes_witness:
  "split [CHR 0x27, CHR ''a'', CHR 0x27, CHR 0x22, CHR ''b'', CHR 0x22] = [''a'', ''b''] \<and>
   split [CHR 0x22, CHR ''a'', CHR 0x22, CHR 0x27, CHR ''b'', CHR 0x27] = [''a'', ''b''] \<and>
   split [CHR 0x27, CHR ''a'', CHR 0x27, CHR '' '', CHR 0x22, CHR ''b'', CHR 0x22] = [''a'', ''b''] \<and>
   split [CHR 0x22, CHR ''x'', CHR 0x5C, CHR ''n'', CHR ''y'', CHR 0x22, CHR 0x27, CHR ''b'', CHR 0x27]
     = [[CHR ''x'', CHR 0x0A, CHR ''y''], ''b''] \<and>
   filter (\<lambda>s. length s > 0)
     (split_loop Double [CHR ''x'', CHR 0x0A, CHR ''y''] [[]]
        [CHR 0x22, CHR 0x27, CHR ''b'', CHR 0x27])
     = [[CHR ''x'', CHR 0x0A, CHR ''y''], ''b'']"
  using split_adjacent_quotes [of "[CHR ''x'', CHR 0x0A, CHR ''y'']" "[[]]"
      "[CHR 0x27, CHR ''b'', CHR 0x27]" "''a''" "''a''" "[]"]
    split_adjacent_quotes [of "[]" "[]" "[CHR 0x22, CHR ''b'', CHR 0x22]" "''a''" "''b''" "'' ''"]
    split_adjacent_quotes [of "[]" "[]" "[CHR 0x27, CHR ''b'', CHR 0x27]" "''b''" "''a''" "[]"]
  by (simp add: split_def escape_def)

section \<open>The outcome of \<open>parse\<close>\<close>

subsection \<open>The schema after the first loop\<close>

lemma register_all_fst:
  "fst (register_all ps n) = map (\<lambda>kp. (fst kp, normalize_long (snd kp))) ps"
  by (induction ps arbitrary: n) (auto simp: Let_def split_beta)

lemma first_loop_fst:
  "fst (first_loop ps) = map (\<lambda>kp. (fst kp, normalize_long (snd kp))) ps"
  by (simp add: first_loop_def register_all_fst)

lemma normalize_long_fields [simp]:
  "short (normalize_long p) = short p"
  "type (normalize_long p) = type p"
  "optional (normalize_long p) = optional p"
  "default' (normalize_long p) = default' p"
  by (auto simp: normalize_long_def split: option.splits long_alias.splits)

subsection \<open>The tuple returned\<close>

lemma outcome_either_or:
  "outcome help w = (a, e, h) \<Longrightarrow>
   (a \<noteq> None \<and> e = None) \<or>
   (a = None \<and> (\<exists>r. e = Some r \<and> (invalid r \<noteq> [] \<or> missing r \<noteq> [] \<or> unexpected r \<noteq> [])))"
  by (auto simp: outcome_def split: if_splits)

lemma parse_returns:
  "snd (parse mini s params0) = Inr x \<Longrightarrow> \<exists>help w. x = outcome help w"
  by (auto simp: parse_def Let_def split: prod.splits sum.splits)

subsection \<open>When the loops end without an exception\<close>

lemma raw_settle [simp]: "raw (settle key r w) = raw w"
  by (simp add: settle_def split: option.splits)

lemma raw_settle_long [simp]: "raw (settle_long key param r w) = raw w"
  by (simp add: settle_long_def split: option.splits)

lemma raw_finish [simp]: "raw (finish key param w) = raw w"
  by (simp add: finish_def)

lemma underscore_delete_raw [simp]:
  "p \<noteq> ''_'' \<Longrightarrow> underscore (delete_raw p r) = underscore r"
  by (simp add: delete_raw_def)

lemma parser_returns:
  assumes "\<forall>f arg x. type param = Some (Parser f) \<longrightarrow> f arg \<noteq> Inl (Other x)"
  shows "\<exists>r. parser param arg = Inr r"
proof (cases "type param")
  case None
  then show ?thesis by (simp add: parser_def)
next
  case (Some t)
  show ?thesis
  proof (cases t)
    case Bool
    with Some show ?thesis by (simp add: parser_def)
  next
    case (Parser f)
    with Some assms show ?thesis
      by (cases "f arg") (auto simp: parser_def split: thrown.splits)
  qed
qed

lemma seed_default_returns:
  assumes "\<forall>f arg x. type param = Some (Parser f) \<longrightarrow> f arg \<noteq> Inl (Other x)"
  shows "\<exists>w'. seed_default key param w = Inr w' \<and> raw w' = raw w"
  using parser_returns [OF assms, of "JStr (the (default' param))"]
  by (auto simp: seed_default_def)

lemma bind_short_returns:
  assumes "\<forall>f arg x. type param = Some (Parser f) \<longrightarrow> f arg \<noteq> Inl (Other x)"
    and "short param \<noteq> Some ''_''"
  shows "\<exists>w'. bind_short key param w = Inr w' \<and> underscore (raw w') = underscore (raw w)"
proof (cases "has_short param \<and> in_raw (the (short param)) (raw w)")
  case True
  then have "the (short param) \<noteq> ''_''"
    using assms(2) by (auto simp: has_short_def split: option.splits)
  then show ?thesis
    using True parser_returns [OF assms(1), of "get_raw (raw w) (the (short param))"]
    by (auto simp: bind_short_def)
next
  case False
  then show ?thesis by (auto simp: bind_short_def)
qed

lemma bind_long_returns:
  assumes "\<forall>f arg x. type param = Some (Parser f) \<longrightarrow> f arg \<noteq> Inl (Other x)"
    and "''_'' \<notin> set ps"
  shows "\<exists>w'. bind_long key param ps w = Inr w' \<and> underscore (raw w') = underscore (raw w)"
  using assms(2)
proof (induction ps arbitrary: w)
  case Nil
  then show ?case by simp
next
  case (Cons p ps)
  show ?case
  proof (cases "in_raw p (raw w)")
    case True
    obtain r where r: "parser param (get_raw (raw w) p) = Inr r"
      using parser_returns [OF assms(1)] by blast
    from Cons.prems have "p \<noteq> ''_''" and "''_'' \<notin> set ps" by auto
    with Cons.IH [of "settle_long key param r (w\<lparr>raw := delete_raw p (raw w)\<rparr>)"] True r
    show ?thesis by auto
  next
    case False
    with Cons show ?thesis by auto
  qed
qed

lemma bind_positional_returns:
  assumes "\<forall>f arg x. type param = Some (Parser f) \<longrightarrow> f arg \<noteq> Inl (Other x)"
    and "underscore (raw w) \<noteq> None"
  shows "\<exists>w'. bind_positional key param w = Inr w' \<and> underscore (raw w') \<noteq> None"
proof -
  obtain ts where ts: "underscore (raw w) = Some ts"
    using assms(2) by auto
  show ?thesis
  proof (cases ts)
    case Nil
    with ts show ?thesis by (auto simp: bind_positional_def)
  next
    case (Cons t ts')
    obtain r where "parser param t = Inr r"
      using parser_returns [OF assms(1)] by blast
    with ts Cons show ?thesis by (auto simp: bind_positional_def)
  qed
qed

lemma resolve_returns:
  assumes "\<forall>f arg x. type param = Some (Parser f) \<longrightarrow> f arg \<noteq> Inl (Other x)"
    and "short param \<noteq> Some ''_''" and "''_'' \<notin> set (long_names param)"
    and "underscore (raw w) \<noteq> None"
  shows "\<exists>w'. resolve key param w = Inr w' \<and> underscore (raw w') \<noteq> None"
proof -
  obtain w1 where w1: "seed_default key param w = Inr w1" "raw w1 = raw w"
    using seed_default_returns [OF assms(1)] by blast
  obtain w2 where w2: "bind_short key param w1 = Inr w2"
      "underscore (raw w2) = underscore (raw w1)"
    using bind_short_returns [OF assms(1,2)] by blast
  obtain w3 where w3: "bind_long key param (long_names param) w2 = Inr w3"
      "underscore (raw w3) = underscore (raw w2)"
    using bind_long_returns [OF assms(1,3)] by blast
  have "underscore (raw w3) \<noteq> None"
    using w1 w2 w3 assms(4) by simp
  then obtain w4 where w4: "bind_positional key param w3 = Inr w4" "underscore (raw w4) \<noteq> None"
    using bind_positional_returns [OF assms(1)] by blast
  show ?thesis
    using w1 w2 w3 w4 by (simp add: resolve_def)
qed

lemma resolve_all_returns:
  assumes "\<forall>kp\<in>set ps. (\<forall>f arg x. type (snd kp) = Some (Parser f) \<longrightarrow> f arg \<noteq> Inl (Other x))
             \<and> short (snd kp) \<noteq> Some ''_'' \<and> ''_'' \<notin> set (long_names (snd kp))"
    and "underscore (raw w) \<noteq> None"
  shows "\<exists>w'. resolve_all ps w = Inr w' \<and> underscore (raw w') \<noteq> None"
  using assms
proof (induction ps arbitrary: w)
  case Nil
  then show ?case by simp
next
  case (Cons kp ps)
  obtain key param where kp: "kp = (key, param)" by (cases kp)
  have "\<exists>w1. resolve key param w = Inr w1 \<and> underscore (raw w1) \<noteq> None"
    using Cons.prems kp by (intro resolve_returns) auto
  then obtain w1 where w1: "resolve key param w = Inr w1" "underscore (raw w1) \<noteq> None"
    by blast
  from Cons.IH [OF _ w1(2)] Cons.prems(1) w1(1) kp show ?case
    by auto
qed

lemma leftover_returns:
  "underscore (raw w) \<noteq> None \<Longrightarrow> \<exists>w'. leftover w = Inr w'"
  by (auto simp: leftover_def)

text \<open>
  C1. Whenever \<open>parse\<close> returns, it returns one of two tuples: a result and no error
  report, or no result and an error report with an entry under \<open>invalid\<close>, under
  \<open>missing\<close> or under \<open>unexpected\<close>. And it does return, for every input, when no
  coercion function of the schema throws anything but a \<open>ParseError\<close> and no alias is
  the reserved name \<open>_\<close>: those are the two exceptions of the embedding.
\<close>

theorem parse_either_or:
  "(snd (parse mini s params0) = Inr (a, e, h) \<longrightarrow>
      (a \<noteq> None \<and> e = None) \<or>
      (a = None \<and>
       (\<exists>r. e = Some r \<and> (invalid r \<noteq> [] \<or> missing r \<noteq> [] \<or> unexpected r \<noteq> [])))) \<and>
   ((\<forall>kp\<in>set params0.
       (\<forall>f arg x. type (snd kp) = Some (Parser f) \<longrightarrow> f arg \<noteq> Inl (Other x)) \<and>
       short (snd kp) \<noteq> Some ''_'' \<and> ''_'' \<notin> set (long_names (normalize_long (snd kp)))) \<longrightarrow>
    (\<exists>a e h. snd (parse mini s params0) = Inr (a, e, h)))"
proof (intro conjI impI)
  assume "snd (parse mini s params0) = Inr (a, e, h)"
  then obtain hlp w where "outcome hlp w = (a, e, h)"
    using parse_returns by metis
  then show "(a \<noteq> None \<and> e = None) \<or>
      (a = None \<and>
       (\<exists>r. e = Some r \<and> (invalid r \<noteq> [] \<or> missing r \<noteq> [] \<or> unexpected r \<noteq> [])))"
    by (rule outcome_either_or)
next
  assume ok: "\<forall>kp\<in>set params0.
       (\<forall>f arg x. type (snd kp) = Some (Parser f) \<longrightarrow> f arg \<noteq> Inl (Other x)) \<and>
       short (snd kp) \<noteq> Some ''_'' \<and> ''_'' \<notin> set (long_names (normalize_long (snd kp)))"
  obtain params1 n where fl: "first_loop params0 = (params1, n)"
    by (cases "first_loop params0")
  then have p1: "params1 = map (\<lambda>kp. (fst kp, normalize_long (snd kp))) params0"
    using first_loop_fst [of params0] by simp
  have "\<forall>kp\<in>set params1.
       (\<forall>f arg x. type (snd kp) = Some (Parser f) \<longrightarrow> f arg \<noteq> Inl (Other x)) \<and>
       short (snd kp) \<noteq> Some ''_'' \<and> ''_'' \<notin> set (long_names (snd kp))"
    using ok by (auto simp: p1)
  moreover have "underscore (raw (start (mini (tokens s) (options' n) (flags n)))) \<noteq> None"
    by (simp add: start_def)
  ultimately obtain w1 where w1:
    "resolve_all params1 (start (mini (tokens s) (options' n) (flags n))) = Inr w1"
    "underscore (raw w1) \<noteq> None"
    using resolve_all_returns by blast
  obtain w2 where "leftover w1 = Inr w2"
    using leftover_returns [OF w1(2)] by blast
  with w1 fl show "\<exists>a e h. snd (parse mini s params0) = Inr (a, e, h)"
    by (simp add: parse_def second_loop_def Let_def) (metis prod_cases3)
qed

text \<open>
  Evaluating concrete calls: the definitions \<open>parse\<close> unfolds to. In the examples
  \<open>minimist\<close> is the function that returns what the library returns on the tokens of
  the example.
\<close>

lemmas parse_eval =
  parse_def first_loop_def second_loop_def register_def names_of_def help_of_def
  normalize_long_def long_names_def has_short_def has_long_def has_default_def is_optional_def
  is_bool_def tokens_def split_def start_def resolve_def seed_default_def bind_short_def
  bind_positional_def finish_def settle_def settle_long_def parser_def get_arg_def in_raw_def
  get_raw_def delete_raw_def get_property_def set_property_def object_prototype_def
  leftover_def outcome_def Let_def

text \<open>
  The theorem at \<open>parse("apple carrot", {fruit: {}, vegetable: {}})\<close>, which returns a
  result, and at \<open>parse("apple", {fruit: {}, vegetable: {}})\<close>, which returns a report
  with \<open>vegetable\<close> missing. With no name declared, \<open>minimist\<close> returns the tokens in
  \<open>_\<close> and nothing else.
\<close>

theorem parse_either_or_witness:
  "snd (parse (\<lambda>toks strings booleans. (map JStr toks, []))
     (Str ''apple carrot'')
     [(''fruit'', \<lparr>long = None, short = None, type = None, optional = None, default' = None\<rparr>),
      (''vegetable'', \<lparr>long = None, short = None, type = None, optional = None, default' = None\<rparr>)])
   = Inr (Some [(''fruit'', JStr ''apple''), (''vegetable'', JStr ''carrot'')], None,
          \<lparr>params = [''<fruit>'', ''<vegetable>''], options = []\<rparr>) \<and>
   snd (parse (\<lambda>toks strings booleans. (map JStr toks, []))
     (Str ''apple'')
     [(''fruit'', \<lparr>long = None, short = None, type = None, optional = None, default' = None\<rparr>),
      (''vegetable'', \<lparr>long = None, short = None, type = None, optional = None, default' = None\<rparr>)])
   = Inr (None, Some \<lparr>invalid = [], missing = [''vegetable''], unexpected = []\<rparr>,
          \<lparr>params = [''<fruit>'', ''<vegetable>''], options = []\<rparr>)"
  using parse_either_or [of "\<lambda>toks strings booleans. (map JStr toks, [])" "Str ''apple carrot''"
      "[(''fruit'', \<lparr>long = None, short = None, type = None, optional = None, default' = None\<rparr>),
        (''vegetable'', \<lparr>long = None, short = None, type = None, optional = None, default' = None\<rparr>)]"
      "Some [(''fruit'', JStr ''apple''), (''vegetable'', JStr ''carrot'')]" None
      "\<lparr>params = [''<fruit>'', ''<vegetable>''], options = []\<rparr>"]
    parse_either_or [of "\<lambda>toks strings booleans. (map JStr toks, [])" "Str ''apple''"
      "[(''fruit'', \<lparr>long = None, short = None, type = None, optional = None, default' = None\<rparr>),
        (''vegetable'', \<lparr>long = None, short = None, type = None, optional = None, default' = None\<rparr>)]"
      None "Some \<lparr>invalid = [], missing = [''vegetable''], unexpected = []\<rparr>"
      "\<lparr>params = [''<fruit>'', ''<vegetable>''], options = []\<rparr>"]
  by (simp add: parse_eval)

section \<open>The schema across calls\<close>

lemma normalize_long_idem [simp]:
  "normalize_long (normalize_long p) = normalize_long p"
  by (auto simp: normalize_long_def split: option.splits long_alias.splits)

lemma register_all_normalized:
  "register_all (map (\<lambda>kp. (fst kp, normalize_long (snd kp))) ps) n = register_all ps n"
  by (induction ps arbitrary: n) (auto simp: Let_def split_beta)

lemma first_loop_again:
  "first_loop (fst (first_loop ps)) = first_loop ps"
  by (simp add: first_loop_fst) (simp add: first_loop_def register_all_normalized)

lemma parse_fst: "fst (parse mini s params0) = fst (first_loop params0)"
  by (simp add: parse_def Let_def split_beta)

text \<open>
  C5 as it is stated fails. The first loop assigns to \<open>param.long\<close>: a long alias given
  as one string is an array of one string after the call. Here the schema is
  \<open>{fruit: {long: "fruit"}}\<close> and the input \<open>"--fruit apple"\<close>, on which \<open>minimist\<close>
  returns \<open>{_: [], fruit: "apple"}\<close>.
\<close>

theorem parse_schema_unchanged_counterexample:
  "fst (parse (\<lambda>toks strings booleans. ([], [(''fruit'', JStr ''apple'')]))
     (Str ''--fruit apple'')
     [(''fruit'', \<lparr>long = Some (LongStr ''fruit''), short = None, type = None, optional = None,
                   default' = None\<rparr>)])
   = [(''fruit'', \<lparr>long = Some (LongArr [''fruit'']), short = None, type = None, optional = None,
                   default' = None\<rparr>)] \<and>
   fst (parse (\<lambda>toks strings booleans. ([], [(''fruit'', JStr ''apple'')]))
     (Str ''--fruit apple'')
     [(''fruit'', \<lparr>long = Some (LongStr ''fruit''), short = None, type = None, optional = None,
                   default' = None\<rparr>)])
   \<noteq> [(''fruit'', \<lparr>long = Some (LongStr ''fruit''), short = None, type = None, optional = None,
                   default' = None\<rparr>)]"
  by (simp add: parse_eval)

text \<open>
  C5, amended. The call changes one thing in the schema: a \<open>long\<close> that is a string and
  not empty becomes the array of that string. Every other field of every descriptor is as
  before, and a schema with no such \<open>long\<close> is left as it was.
\<close>

theorem parse_schema_after:
  "fst (parse mini s params0) =
     map (\<lambda>(key, param).
            (key, param\<lparr>long := (case long param of
                                    Some (LongStr l) \<Rightarrow> if l \<noteq> [] then Some (LongArr [l]) else Some (LongStr l)
                                  | other \<Rightarrow> other)\<rparr>)) params0 \<and>
   ((\<forall>kp\<in>set params0. \<forall>l. long (snd kp) = Some (LongStr l) \<longrightarrow> l = []) \<longrightarrow>
    fst (parse mini s params0) = params0)"
proof
  have n: "normalize_long param =
        param\<lparr>long := (case long param of
                         Some (LongStr l) \<Rightarrow> if l \<noteq> [] then Some (LongArr [l]) else Some (LongStr l)
                       | other \<Rightarrow> other)\<rparr>" for param
    by (auto simp: normalize_long_def split: option.splits long_alias.splits)
  show "fst (parse mini s params0) =
     map (\<lambda>(key, param).
            (key, param\<lparr>long := (case long param of
                                    Some (LongStr l) \<Rightarrow> if l \<noteq> [] then Some (LongArr [l]) else Some (LongStr l)
                                  | other \<Rightarrow> other)\<rparr>)) params0"
    by (simp add: parse_fst first_loop_fst n [symmetric] split_beta)
  show "(\<forall>kp\<in>set params0. \<forall>l. long (snd kp) = Some (LongStr l) \<longrightarrow> l = []) \<longrightarrow>
    fst (parse mini s params0) = params0"
  proof
    assume a: "\<forall>kp\<in>set params0. \<forall>l. long (snd kp) = Some (LongStr l) \<longrightarrow> l = []"
    have "normalize_long (snd kp) = snd kp" if "kp \<in> set params0" for kp
      using a that by (auto simp: normalize_long_def split: option.splits long_alias.splits)
    then have "map (\<lambda>kp. (fst kp, normalize_long (snd kp))) params0 = params0"
      by (simp add: map_idI)
    then show "fst (parse mini s params0) = params0"
      by (simp add: parse_fst first_loop_fst)
  qed
qed

text \<open>The theorem at the schema \<open>{fruit: {long: ["fruit"]}}\<close>, which the call leaves as it was.\<close>

theorem parse_schema_after_witness:
  "fst (parse (\<lambda>toks strings booleans. ([], [(''fruit'', JStr ''apple'')]))
     (Str ''--fruit apple'')
     [(''fruit'', \<lparr>long = Some (LongArr [''fruit'']), short = None, type = None, optional = None,
                   default' = None\<rparr>)])
   = [(''fruit'', \<lparr>long = Some (LongArr [''fruit'']), short = None, type = None, optional = None,
                   default' = None\<rparr>)]"
  using parse_schema_after [of "\<lambda>toks strings booleans. ([], [(''fruit'', JStr ''apple'')])"
      "Str ''--fruit apple''"
      "[(''fruit'', \<lparr>long = Some (LongArr [''fruit'']), short = None, type = None, optional = None,
                   default' = None\<rparr>)]"]
  by simp

text \<open>
  C8. A second call of \<open>parse\<close> with the same input and the same schema object, which the
  first call has changed, returns what the first call returned: the same result, error
  report and help listing (or the same exception), and it leaves the schema as the first
  call left it. The coercion functions and \<open>minimist\<close> are functions of their arguments,
  and \<open>parse\<close> keeps nothing else between calls.
\<close>

theorem parse_twice:
  "parse mini s (fst (parse mini s params0)) = parse mini s params0"
  by (simp add: parse_fst) (simp add: parse_def second_loop_def first_loop_again)

text \<open>
  The theorem at \<open>parse("--fruit apple", {fruit: {long: "fruit", default: "banana"}})\<close>,
  called a second time.
\<close>

theorem parse_twice_witness:
  "snd (parse (\<lambda>toks strings booleans. ([], [(''fruit'', JStr ''apple'')]))
     (Str ''--fruit apple'')
     (fst (parse (\<lambda>toks strings booleans. ([], [(''fruit'', JStr ''apple'')]))
        (Str ''--fruit apple'')
        [(''fruit'', \<lparr>long = Some (LongStr ''fruit''), short = None, type = None, optional = None,
                   default' = Some ''banana''\<rparr>)])))
   = Inr (Some [(''fruit'', JStr ''apple'')], None,
          \<lparr>params = [], options = [''--fruit <fruit=banana>'']\<rparr>)"
  using parse_twice [of "\<lambda>toks strings booleans. ([], [(''fruit'', JStr ''apple'')])"
     "Str ''--fruit apple''"
     "[(''fruit'', \<lparr>long = Some (LongStr ''fruit''), short = None, type = None, optional = None,
                   default' = Some ''banana''\<rparr>)]"]
  by (simp add: parse_eval)

section \<open>A default that is the empty string\<close>





















section \<open>The error report\<close>

subsection \<open>An entry under \<open>invalid\<close> stays\<close>






lemma invalid_finish [simp]: "invalid (errors (finish key param w)) = invalid (errors w)"
  by (simp add: finish_def)





lemma resolve_steps:
  assumes "resolve key param w = Inr w'"
  obtains w1 w2 w3 w4 where "seed_default key param w = Inr w1"
    and "bind_short key param w1 = Inr w2"
    and "bind_long key param (long_names param) w2 = Inr w3"
    and "bind_positional key param w3 = Inr w4"
    and "w' = finish key param w4"
  using assms by (auto simp: resolve_def split: sum.splits)










subsection \<open>What is recorded under \<open>unexpected\<close>\<close>

lemma unexpected_settle [simp]:
  "unexpected (errors (settle key r w)) = unexpected (errors w)"
  by (simp add: settle_def split: option.splits)

lemma unexpected_settle_long [simp]:
  "unexpected (errors (settle_long key param r w)) = unexpected (errors w)"
  by (simp add: settle_long_def split: option.splits)

lemma unexpected_finish [simp]:
  "unexpected (errors (finish key param w)) = unexpected (errors w)"
  by (simp add: finish_def)

lemma unexpected_seed_default:
  "seed_default key param w = Inr w' \<Longrightarrow> unexpected (errors w') = unexpected (errors w)"
  by (auto simp: seed_default_def split: if_splits sum.splits)

lemma unexpected_bind_short:
  "bind_short key param w = Inr w' \<Longrightarrow> unexpected (errors w') = unexpected (errors w)"
  by (auto simp: bind_short_def split: if_splits sum.splits)

lemma unexpected_bind_long:
  "bind_long key param ps w = Inr w' \<Longrightarrow> unexpected (errors w') = unexpected (errors w)"
proof (induction ps arbitrary: w)
  case Nil
  then show ?case by simp
next
  case (Cons p ps)
  show ?case
  proof (cases "in_raw p (raw w)")
    case True
    with Cons.prems obtain r where
      "bind_long key param ps (settle_long key param r (w\<lparr>raw := delete_raw p (raw w)\<rparr>)) = Inr w'"
      by (auto split: sum.splits)
    then have "unexpected (errors w') =
        unexpected (errors (settle_long key param r (w\<lparr>raw := delete_raw p (raw w)\<rparr>)))"
      by (rule Cons.IH)
    then show ?thesis by simp
  next
    case False
    with Cons show ?thesis by simp
  qed
qed

lemma unexpected_bind_positional:
  "bind_positional key param w = Inr w' \<Longrightarrow> unexpected (errors w') = unexpected (errors w)"
  by (auto simp: bind_positional_def split: if_splits sum.splits option.splits list.splits)

lemma unexpected_resolve:
  assumes "resolve key param w = Inr w'"
  shows "unexpected (errors w') = unexpected (errors w)"
proof -
  from assms obtain w1 w2 w3 w4 where s: "seed_default key param w = Inr w1"
    "bind_short key param w1 = Inr w2" "bind_long key param (long_names param) w2 = Inr w3"
    "bind_positional key param w3 = Inr w4" "w' = finish key param w4"
    by (rule resolve_steps)
  show ?thesis
    using unexpected_seed_default [OF s(1)] unexpected_bind_short [OF s(2)]
      unexpected_bind_long [OF s(3)] unexpected_bind_positional [OF s(4)]
    by (simp add: s(5))
qed

lemma unexpected_resolve_all:
  "resolve_all ps w = Inr w' \<Longrightarrow> unexpected (errors w') = unexpected (errors w)"
proof (induction ps arbitrary: w)
  case Nil
  then show ?case by simp
next
  case (Cons kp ps)
  obtain key param where kp: "kp = (key, param)" by (cases kp)
  with Cons.prems obtain w1 where w1: "resolve key param w = Inr w1" "resolve_all ps w1 = Inr w'"
    by (auto split: sum.splits)
  show ?case
    using Cons.IH [OF w1(2)] unexpected_resolve [OF w1(1)] by simp
qed

lemma unexpected_second_loop:
  "second_loop mini s params0 = Inr w \<Longrightarrow> unexpected (errors w) = []"
  by (auto simp: second_loop_def split_beta start_def dest: unexpected_resolve_all)

text \<open>
  C6 as it is stated fails. The loop over \<open>raw._\<close> skips the empty string. With the token
  list \<open>["", "x"]\<close> and the empty schema, \<open>minimist\<close> returns \<open>{_: ["", "x"]}\<close>; both
  tokens remain after the resolution, and only \<open>x\<close> is recorded. With the token list
  \<open>[""]\<close> the empty string remains and there is no report at all.
\<close>

theorem leftover_recorded_counterexample:
  "second_loop (\<lambda>toks strings booleans. (map JStr toks, [])) (Argv [[], ''x'']) []
   = Inr \<lparr>raw = \<lparr>underscore = Some [JStr [], JStr ''x''], named = []\<rparr>, args = [],
          errors = \<lparr>invalid = [], missing = [], unexpected = []\<rparr>\<rparr> \<and>
   snd (parse (\<lambda>toks strings booleans. (map JStr toks, [])) (Argv [[], ''x'']) [])
   = Inr (None, Some \<lparr>invalid = [], missing = [], unexpected = [JStr ''x'']\<rparr>,
          \<lparr>params = [], options = []\<rparr>) \<and>
   snd (parse (\<lambda>toks strings booleans. (map JStr toks, [])) (Argv [[]]) [])
   = Inr (Some [], None, \<lparr>params = [], options = []\<rparr>)"
  by (simp add: parse_eval)

text \<open>
  C6, amended. Once the second loop has ended, the tokens that remain in \<open>raw._\<close> and are
  not the empty string, and then the keys that remain in \<open>raw\<close> and are not \<open>_\<close>, each
  in the order of the object, are the \<open>unexpected\<close> list of the report \<open>parse\<close> returns;
  when \<open>parse\<close> returns no report, there are none.
\<close>

theorem leftover_recorded:
  assumes "second_loop mini s params0 = Inr w" and "underscore (raw w) = Some ts"
  shows "\<exists>a e h. snd (parse mini s params0) = Inr (a, e, h) \<and>
           (case e of
              None \<Rightarrow>
                filter (\<lambda>arg. arg \<noteq> JStr []) ts
                @ map JStr (filter (\<lambda>opt. opt \<noteq> ''_'') (map fst (named (raw w)))) = []
            | Some r \<Rightarrow>
                unexpected r =
                filter (\<lambda>arg. arg \<noteq> JStr []) ts
                @ map JStr (filter (\<lambda>opt. opt \<noteq> ''_'') (map fst (named (raw w)))))"
proof -
  let ?left = "filter (\<lambda>arg. arg \<noteq> JStr []) ts
                @ map JStr (filter (\<lambda>opt. opt \<noteq> ''_'') (map fst (named (raw w))))"
  let ?w2 = "w\<lparr>errors := (errors w)\<lparr>unexpected := ?left\<rparr>\<rparr>"
  let ?hlp = "\<lparr>params = helpParams (snd (first_loop params0)),
                options = helpOptions (snd (first_loop params0))\<rparr>"
  have "unexpected (errors w) = []"
    using assms(1) by (rule unexpected_second_loop)
  then have l: "leftover w = Inr ?w2"
    using assms(2) by (simp add: leftover_def)
  have p: "snd (parse mini s params0) = Inr (outcome ?hlp ?w2)"
    using assms(1) l by (simp add: parse_def Let_def split_beta)
  obtain a e h where o: "outcome ?hlp ?w2 = (a, e, h)"
    by (cases "outcome ?hlp ?w2")
  then have "case e of None \<Rightarrow> ?left = [] | Some r \<Rightarrow> unexpected r = ?left"
    by (auto simp: outcome_def split: if_splits)
  with p o show ?thesis by auto
qed

text \<open>
  The theorem at \<open>parse("--fruit apple", {verbose: {type: "bool"}})\<close>, where \<open>minimist\<close>
  returns \<open>{_: [], fruit: "apple"}\<close>, and at \<open>parse("a b", {x: {}})\<close>, where it returns
  \<open>{_: ["a", "b"]}\<close>.
\<close>

theorem leftover_recorded_witness:
  "(\<exists>a h. snd (parse (\<lambda>toks strings booleans. ([], [(''fruit'', JStr ''apple'')]))
     (Str ''--fruit apple'')
     [(''verbose'', \<lparr>long = None, short = None, type = Some Bool, optional = None,
                     default' = None\<rparr>)])
    = Inr (a, Some \<lparr>invalid = [], missing = [], unexpected = [JStr ''fruit'']\<rparr>, h)) \<and>
   (\<exists>a h. snd (parse (\<lambda>toks strings booleans. (map JStr toks, []))
     (Str ''a b'')
     [(''x'', \<lparr>long = None, short = None, type = None, optional = None, default' = None\<rparr>)])
    = Inr (a, Some \<lparr>invalid = [], missing = [], unexpected = [JStr ''b'']\<rparr>, h))"
proof -
  have 1: "second_loop (\<lambda>toks strings booleans. ([], [(''fruit'', JStr ''apple'')]))
     (Str ''--fruit apple'')
     [(''verbose'', \<lparr>long = None, short = None, type = Some Bool, optional = None,
                     default' = None\<rparr>)]
     = Inr \<lparr>raw = \<lparr>underscore = Some [], named = [(''fruit'', JStr ''apple'')]\<rparr>,
            args = [(''verbose'', JBool False)],
            errors = \<lparr>invalid = [], missing = [], unexpected = []\<rparr>\<rparr>"
    by (simp add: parse_eval)
  have 2: "second_loop (\<lambda>toks strings booleans. (map JStr toks, []))
     (Str ''a b'')
     [(''x'', \<lparr>long = None, short = None, type = None, optional = None, default' = None\<rparr>)]
     = Inr \<lparr>raw = \<lparr>underscore = Some [JStr ''b''], named = []\<rparr>,
            args = [(''x'', JStr ''a'')],
            errors = \<lparr>invalid = [], missing = [], unexpected = []\<rparr>\<rparr>"
    by (simp add: parse_eval)
  show ?thesis
    using leftover_recorded [OF 1, of "[]"] leftover_recorded [OF 2, of "[JStr ''b'']"]
    by (simp add: parse_eval)
qed

section \<open>The value of a parameter\<close>

subsection \<open>Properties of an object\<close>











subsection \<open>One source is one layer\<close>





subsection \<open>The loop over the long aliases\<close>












subsection \<open>The sources of one parameter\<close>








subsection \<open>The other keys\<close>









subsection \<open>The positional tokens\<close>







end
